theory Spec2Isabelle
  imports Main
begin

section \<open>Dates, times and durations\<close>

text \<open>
  The script works with the naive \<^verbatim>\<open>datetime.datetime\<close> and
  \<^verbatim>\<open>datetime.timedelta\<close> objects of the Python library. Every
  datetime it builds has zero seconds, and the increment is a whole number of minutes,
  so a datetime is represented by its position on the proleptic Gregorian time line,
  counted in minutes: \<open>toordinal * 1440 + hour * 60 + minute\<close>, where
  \<open>toordinal\<close> is the library's day number (day 1 is 0001-01-01). Comparison of
  datetimes is comparison of these numbers. A timedelta is a number of minutes.
\<close>

type_synonym datetime = int
type_synonym timedelta = int

datatype error = CustomError | ValueError | OverflowError

definition MAXORDINAL :: int where
  "MAXORDINAL = 3652059"

definition toordinal :: "datetime \<Rightarrow> int" where
  "toordinal t = t div 1440"

definition hour :: "datetime \<Rightarrow> int" where
  "hour t = (t mod 1440) div 60"

definition minute :: "datetime \<Rightarrow> int" where
  "minute t = t mod 60"

text \<open>The library's day arithmetic, used to write calendar dates as the source does.\<close>

definition is_leap :: "int \<Rightarrow> bool" where
  "is_leap year \<longleftrightarrow> year mod 4 = 0 \<and> (year mod 100 \<noteq> 0 \<or> year mod 400 = 0)"

definition days_before_year :: "int \<Rightarrow> int" where
  "days_before_year year = (let y = year - 1 in y * 365 + y div 4 - y div 100 + y div 400)"

definition DAYS_BEFORE_MONTH :: "int list" where
  "DAYS_BEFORE_MONTH = [0, 31, 59, 90, 120, 151, 181, 212, 243, 273, 304, 334]"

definition DAYS_IN_MONTH :: "int list" where
  "DAYS_IN_MONTH = [31, 28, 31, 30, 31, 30, 31, 31, 30, 31, 30, 31]"

definition days_before_month :: "int \<Rightarrow> int \<Rightarrow> int" where
  "days_before_month year month =
     DAYS_BEFORE_MONTH ! nat (month - 1) + (if 2 < month \<and> is_leap year then 1 else 0)"

definition days_in_month :: "int \<Rightarrow> int \<Rightarrow> int" where
  "days_in_month year month =
     (if month = 2 \<and> is_leap year then 29 else DAYS_IN_MONTH ! nat (month - 1))"

definition ymd2ord :: "int \<Rightarrow> int \<Rightarrow> int \<Rightarrow> int" where
  "ymd2ord year month day = days_before_year year + days_before_month year month + day"

text \<open>
  \<^verbatim>\<open>datetime.datetime(year, month, day, hour, minute)\<close> on literal, valid
  fields (the entries of the weekday table).
\<close>

definition datetime_of :: "int \<Rightarrow> int \<Rightarrow> int \<Rightarrow> int \<Rightarrow> int \<Rightarrow> datetime" where
  "datetime_of year month day hh mm = ymd2ord year month day * 1440 + hh * 60 + mm"

text \<open>
  A datetime object exists only for the years 1 to 9999: the constructor raises
  \<^verbatim>\<open>ValueError\<close> outside, and an addition whose result leaves the range
  raises \<^verbatim>\<open>OverflowError\<close>.
\<close>

definition valid_datetime :: "datetime \<Rightarrow> bool" where
  "valid_datetime t \<longleftrightarrow> 0 < toordinal t \<and> toordinal t \<le> MAXORDINAL"

text \<open>
  \<^verbatim>\<open>datetime.datetime(d.year, d.month, d.day, tm.hour, tm.minute)\<close>: the
  date of \<open>d\<close> at the clock time of \<open>tm\<close>.
\<close>

definition datetime_on :: "datetime \<Rightarrow> datetime \<Rightarrow> error + datetime" where
  "datetime_on d tm =
     (if valid_datetime d then Inr (toordinal d * 1440 + hour tm * 60 + minute tm)
      else Inl ValueError)"

text \<open>
  \<^verbatim>\<open>datetime.timedelta(minutes=n)\<close>: the number of whole days of a
  timedelta is limited to 999999999 in absolute value.
\<close>

definition timedelta_minutes :: "int \<Rightarrow> error + timedelta" where
  "timedelta_minutes n =
     (if 999999999 < \<bar>n div 1440\<bar> then Inl OverflowError else Inr n)"

text \<open>\<^verbatim>\<open>t + increment\<close> on a datetime and a timedelta.\<close>

definition datetime_add :: "datetime \<Rightarrow> timedelta \<Rightarrow> error + datetime" where
  "datetime_add t delta =
     (if valid_datetime (t + delta) then Inr (t + delta) else Inl OverflowError)"

section \<open>The list of times of day\<close>

text \<open>
  \<^verbatim>\<open>
  timelist = []
  t = start_time
  while t <= end_time:
      timelist.append(t)
      t += increment
  \<close>
  The loop need not end, so it is a partial function: \<open>None\<close> is a run that never
  leaves the loop. A run that ends returns the list as the loop left it, and the
  exception that ended it, if one did.
\<close>

partial_function (option) timelist_loop ::
  "datetime \<Rightarrow> datetime \<Rightarrow> timedelta \<Rightarrow> datetime list \<Rightarrow> (datetime list \<times> error option) option"
where
  "timelist_loop t end_time increment timelist =
     (if t \<le> end_time then
        (case datetime_add t increment of
           Inl e \<Rightarrow> Some (timelist @ [t], Some e)
         | Inr t' \<Rightarrow> timelist_loop t' end_time increment (timelist @ [t]))
      else Some (timelist, None))"

declare timelist_loop.simps [code]

section \<open>The inputs and the state of the host application\<close>

text \<open>
  The parameters of the tool, with what the host application answers about the licence
  and about the input layer (\<^verbatim>\<open>arcpy.CheckExtension("Network")\<close>,
  \<^verbatim>\<open>desc.dataType\<close>, \<^verbatim>\<open>desc.solverName\<close>). The
  increment is a whole number of minutes.
\<close>

record inputs =
  extension_status :: string
  dataType :: string
  solverName :: string
  output_feature_class :: string
  start_day_input :: string
  start_time_input :: string
  end_day_input :: string
  end_time_input :: string
  increment_input :: int

text \<open>
  The script changes the host application only through calls of its automation
  interface. What those calls touch is kept in a record: the messages of the tool, the
  time of day of the solver properties, the fields and the rows of the polygons
  sublayer, the feature classes of the workspace by path, and a log of the solves that
  were run (the time of day each one ran with). A text of a message is a literal or the
  printed form \<^verbatim>\<open>str(t)\<close> of a datetime.
\<close>

datatype severity = ErrorMsg | WarningMsg | InfoMsg

datatype msg_text = Literal string | StrOf datetime

record 'g row =
  Shape :: 'g
  TimeOfDay :: "datetime option"

record 'g world =
  messages :: "(severity \<times> msg_text) list"
  timeOfDay :: "datetime option"
  sublayer_fields :: "(string \<times> string) list"
  polygons :: "'g row list"
  datasets :: "string \<Rightarrow> 'g row list option"
  solves :: "datetime option list"

definition AddError :: "string \<Rightarrow> 'g world \<Rightarrow> 'g world" where
  "AddError msg w = w\<lparr>messages := messages w @ [(ErrorMsg, Literal msg)]\<rparr>"

definition AddWarning :: "string \<Rightarrow> 'g world \<Rightarrow> 'g world" where
  "AddWarning msg w = w\<lparr>messages := messages w @ [(WarningMsg, Literal msg)]\<rparr>"

definition AddMessage :: "msg_text \<Rightarrow> 'g world \<Rightarrow> 'g world" where
  "AddMessage msg w = w\<lparr>messages := messages w @ [(InfoMsg, msg)]\<rparr>"

section \<open>Getting and checking the inputs\<close>

text \<open>
  Every check that fails adds an error message and raises \<^verbatim>\<open>CustomError\<close>:
  a function of this section returns the exception or its value, with the state.
\<close>

definition check_license :: "inputs \<Rightarrow> 'g world \<Rightarrow> (error + unit) \<times> 'g world" where
  "check_license inp w =
     (if extension_status inp = ''Available'' then (Inr (), w)
      else (Inl CustomError,
            AddError ''You must have a Network Analyst license to use this tool.'' w))"

definition check_layer :: "inputs \<Rightarrow> 'g world \<Rightarrow> (error + unit) \<times> 'g world" where
  "check_layer inp w =
     (if dataType inp \<noteq> ''NALayer'' \<or> solverName inp \<noteq> ''Service Area Solver''
      then (Inl CustomError, AddError ''Input layer must be a Service Area layer.'' w)
      else (Inr (), w))"

text \<open>The table of the generic weekdays, a dictionary from day names to dates.\<close>

definition days :: "(string \<times> datetime) list" where
  "days =
     [(''Monday'', datetime_of 1900 1 1 0 0),
      (''Tuesday'', datetime_of 1900 1 2 0 0),
      (''Wednesday'', datetime_of 1900 1 3 0 0),
      (''Thursday'', datetime_of 1900 1 4 0 0),
      (''Friday'', datetime_of 1900 1 5 0 0),
      (''Saturday'', datetime_of 1900 1 6 0 0),
      (''Sunday'', datetime_of 1899 12 31 0 0)]"

text \<open>
  \<^verbatim>\<open>datetime.datetime.strptime(text, format)\<close> belongs to the Python
  library. It is a parameter of the model: all that is used of it is that it returns a
  datetime or raises.
\<close>

type_synonym strptime = "string \<Rightarrow> string \<Rightarrow> error + datetime"

text \<open>
  Lower end of the time window: the flag \<^verbatim>\<open>generic_weekday\<close>, the
  start day and the start time.
\<close>

definition start_of_window :: "strptime \<Rightarrow> inputs \<Rightarrow> error + bool \<times> datetime \<times> datetime" where
  "start_of_window strp inp =
     (case (case map_of days (start_day_input inp) of
              Some d \<Rightarrow> Inr (True, d)
            | None \<Rightarrow>
                (case strp (start_day_input inp) ''%Y%m%d'' of
                   Inl e \<Rightarrow> Inl e
                 | Inr d \<Rightarrow> Inr (False, d))) of
        Inl e \<Rightarrow> Inl e
      | Inr (generic_weekday, start_day) \<Rightarrow>
          (case strp (start_time_input inp) ''%H:%M'' of
             Inl e \<Rightarrow> Inl e
           | Inr start_time_dt \<Rightarrow>
               (case datetime_on start_day start_time_dt of
                  Inl e \<Rightarrow> Inl e
                | Inr start_time \<Rightarrow> Inr (generic_weekday, start_day, start_time))))"

text \<open>Upper end of the time window: the end day.\<close>

definition end_day_of ::
  "strptime \<Rightarrow> inputs \<Rightarrow> bool \<Rightarrow> datetime \<Rightarrow> 'g world \<Rightarrow> (error + datetime) \<times> 'g world"
where
  "end_day_of strp inp generic_weekday start_day w =
     (case map_of days (end_day_input inp) of
        Some end_day \<Rightarrow>
          if \<not> generic_weekday then
            (Inl CustomError,
             AddError ''Your Start Day is a specific date, but your End Day is a generic weekday. Please use either a specific date or a generic weekday for both Start Date and End Date.'' w)
          else if start_day \<noteq> end_day then
            (Inl CustomError,
             AddError ''If using a generic weekday, the Start Day and End Day must be the same.'' w)
          else (Inr end_day, w)
      | None \<Rightarrow>
          if generic_weekday then
            (Inl CustomError,
             AddError ''Your Start Day is a generic weekday, but your End Day is a specific date. Please use either a specific date or a generic weekday for both Start Date and End Date.'' w)
          else
            (case strp (end_day_input inp) ''%Y%m%d'' of
               Inl e \<Rightarrow> (Inl e, w)
             | Inr end_day \<Rightarrow> (Inr end_day, w)))"

text \<open>The end time, on the end day.\<close>

definition end_of_window ::
  "strptime \<Rightarrow> inputs \<Rightarrow> bool \<Rightarrow> datetime \<Rightarrow> 'g world \<Rightarrow> (error + datetime) \<times> 'g world"
where
  "end_of_window strp inp generic_weekday start_day w =
     (case end_day_of strp inp generic_weekday start_day w of
        (Inl e, w') \<Rightarrow> (Inl e, w')
      | (Inr end_day, w') \<Rightarrow>
          (case strp (end_time_input inp) ''%H:%M'' of
             Inl e \<Rightarrow> (Inl e, w')
           | Inr end_time_dt \<Rightarrow>
               (case datetime_on end_day end_time_dt of
                  Inl e \<Rightarrow> (Inl e, w')
                | Inr end_time \<Rightarrow> (Inr end_time, w'))))"

text \<open>The two ends of the window, as composed from the day and the time inputs.\<close>

definition window_ends ::
  "strptime \<Rightarrow> inputs \<Rightarrow> 'g world \<Rightarrow> (error + datetime \<times> datetime) \<times> 'g world"
where
  "window_ends strp inp w =
     (case start_of_window strp inp of
        Inl e \<Rightarrow> (Inl e, w)
      | Inr (generic_weekday, start_day, start_time) \<Rightarrow>
          (case end_of_window strp inp generic_weekday start_day w of
             (Inl e, w') \<Rightarrow> (Inl e, w')
           | (Inr end_time, w') \<Rightarrow> (Inr (start_time, end_time), w')))"

text \<open>The comparison of the two ends.\<close>

definition check_order :: "datetime \<Rightarrow> datetime \<Rightarrow> 'g world \<Rightarrow> (error + unit) \<times> 'g world" where
  "check_order start_time end_time w =
     (if start_time = end_time then
        (Inl CustomError, AddError ''Start and end date and time are the same.'' w)
      else if end_time < start_time then
        (Inl CustomError, AddError ''End time is earlier than start time.'' w)
      else (Inr (), w))"

definition time_window ::
  "strptime \<Rightarrow> inputs \<Rightarrow> 'g world \<Rightarrow> (error + datetime \<times> datetime) \<times> 'g world"
where
  "time_window strp inp w =
     (case window_ends strp inp w of
        (Inl e, w') \<Rightarrow> (Inl e, w')
      | (Inr (start_time, end_time), w') \<Rightarrow>
          (case check_order start_time end_time w' of
             (Inl e, w'') \<Rightarrow> (Inl e, w'')
           | (Inr _, w'') \<Rightarrow> (Inr (start_time, end_time), w'')))"

text \<open>All the checks, in the order of the script.\<close>

definition validate ::
  "strptime \<Rightarrow> inputs \<Rightarrow> 'g world \<Rightarrow> (error + datetime \<times> datetime) \<times> 'g world"
where
  "validate strp inp w =
     (case check_license inp w of
        (Inl e, w1) \<Rightarrow> (Inl e, w1)
      | (Inr _, w1) \<Rightarrow>
          (case check_layer inp w1 of
             (Inl e, w2) \<Rightarrow> (Inl e, w2)
           | (Inr _, w2) \<Rightarrow> time_window strp inp w2))"

text \<open>The increment and the list of times.\<close>

definition build_timelist ::
  "int \<Rightarrow> datetime \<Rightarrow> datetime \<Rightarrow> (datetime list \<times> error option) option"
where
  "build_timelist minutes start_time end_time =
     (case timedelta_minutes minutes of
        Inl e \<Rightarrow> Some ([], Some e)
      | Inr increment \<Rightarrow> timelist_loop start_time end_time increment [])"

section \<open>The TimeOfDay field of the polygons sublayer\<close>

definition time_field :: string where
  "time_field = ''TimeOfDay''"

definition ListFields :: "string \<Rightarrow> 'g world \<Rightarrow> (string \<times> string) list" where
  "ListFields name w = filter (\<lambda>f. fst f = name) (sublayer_fields w)"

definition DeleteField :: "string \<Rightarrow> 'g world \<Rightarrow> 'g world" where
  "DeleteField name w = w\<lparr>sublayer_fields := filter (\<lambda>f. fst f \<noteq> name) (sublayer_fields w)\<rparr>"

text \<open>
  Adding a field that already exists does nothing. The keyword \<^verbatim>\<open>DATE\<close>
  makes a field whose type reads \<^verbatim>\<open>Date\<close>.
\<close>

definition AddFieldToAnalysisLayer :: "string \<Rightarrow> string \<Rightarrow> 'g world \<Rightarrow> 'g world" where
  "AddFieldToAnalysisLayer name field_type w =
     (if name \<in> fst ` set (sublayer_fields w) then w
      else w\<lparr>sublayer_fields :=
             sublayer_fields w @ [(name, if field_type = ''DATE'' then ''Date'' else field_type)]\<rparr>)"

text \<open>Clean up any pre-existing fields with this name.\<close>

fun clean_fields :: "(string \<times> string) list \<Rightarrow> 'g world \<Rightarrow> 'g world" where
  "clean_fields [] w = w"
| "clean_fields (f # fs) w =
     clean_fields fs
       (if fst f = time_field \<and> snd f \<noteq> ''Date'' then
          DeleteField time_field
            (AddWarning ''Your Service Area layer's Polygons sublayer contained a field called TimeOfDay of a type other than Date.  This field will be deleted and replaced with a field of type Date used for the output of this tool.'' w)
        else w)"

definition prepare_field :: "'g world \<Rightarrow> 'g world" where
  "prepare_field w =
     AddFieldToAnalysisLayer time_field ''DATE'' (clean_fields (ListFields time_field w) w)"

section \<open>Solving at each time of day\<close>

text \<open>
  The solver is outside the script: it is a parameter, the polygons it computes for the
  time of day of the solver properties. A solve replaces the rows of the polygons
  sublayer by new rows, whose TimeOfDay is empty.
\<close>

type_synonym 'g solver = "datetime option \<Rightarrow> 'g list"

definition Solve :: "'g solver \<Rightarrow> 'g world \<Rightarrow> 'g world" where
  "Solve sv w =
     w\<lparr>polygons := map (\<lambda>g. \<lparr>Shape = g, TimeOfDay = None\<rparr>) (sv (timeOfDay w)),
       solves := solves w @ [timeOfDay w]\<rparr>"

definition CalculateField :: "datetime \<Rightarrow> 'g world \<Rightarrow> 'g world" where
  "CalculateField t w = w\<lparr>polygons := map (\<lambda>r. r\<lparr>TimeOfDay := Some t\<rparr>) (polygons w)\<rparr>"

definition Exists :: "string \<Rightarrow> 'g world \<Rightarrow> bool" where
  "Exists path w \<longleftrightarrow> datasets w path \<noteq> None"

definition CopyFeatures :: "string \<Rightarrow> 'g world \<Rightarrow> 'g world" where
  "CopyFeatures path w = w\<lparr>datasets := (datasets w)(path \<mapsto> polygons w)\<rparr>"

definition Append :: "string \<Rightarrow> 'g world \<Rightarrow> 'g world" where
  "Append path w =
     (case datasets w path of
        None \<Rightarrow> w
      | Some rows \<Rightarrow> w\<lparr>datasets := (datasets w)(path \<mapsto> rows @ polygons w)\<rparr>)"

text \<open>
  One pass of the body of the loop \<^verbatim>\<open>for t in timelist\<close>: the message, the
  time of day, the solve, the TimeOfDay field, the export.
\<close>

definition solve_at :: "'g solver \<Rightarrow> string \<Rightarrow> datetime \<Rightarrow> 'g world \<Rightarrow> 'g world" where
  "solve_at sv out t w =
     (let w1 = AddMessage (StrOf t) w;
          w2 = w1\<lparr>timeOfDay := Some t\<rparr>;
          w3 = Solve sv w2;
          w4 = CalculateField t w3
      in if \<not> Exists out w4 then CopyFeatures out w4 else Append out w4)"

fun solve_loop :: "'g solver \<Rightarrow> string \<Rightarrow> datetime list \<Rightarrow> 'g world \<Rightarrow> 'g world" where
  "solve_loop sv out [] w = w"
| "solve_loop sv out (t # ts) w = solve_loop sv out ts (solve_at sv out t w)"

text \<open>The rows that the pass at \<open>t\<close> exports: the polygons of the solve, with their TimeOfDay.\<close>

definition solved_rows :: "'g solver \<Rightarrow> datetime \<Rightarrow> 'g row list" where
  "solved_rows sv t = map (\<lambda>g. \<lparr>Shape = g, TimeOfDay = Some t\<rparr>) (sv (Some t))"

section \<open>The script\<close>

text \<open>
  \<^verbatim>\<open>except CustomError: pass\<close> and \<^verbatim>\<open>except: raise\<close>: a
  \<^verbatim>\<open>CustomError\<close> ends the script quietly, any other exception leaves it.
\<close>

definition handler :: "error \<Rightarrow> error option" where
  "handler e = (if e = CustomError then None else Some e)"

text \<open>
  A run of the script from a state of the host application: \<open>None\<close> when it never
  ends, otherwise the exception that left it, if any, and the final state. The licence
  that is checked out at the start and checked in at the end is not part of the state.
\<close>

definition script ::
  "strptime \<Rightarrow> 'g solver \<Rightarrow> inputs \<Rightarrow> 'g world \<Rightarrow> (error option \<times> 'g world) option"
where
  "script strp sv inp w =
     (case validate strp inp w of
        (Inl e, w1) \<Rightarrow> Some (handler e, w1)
      | (Inr (start_time, end_time), w1) \<Rightarrow>
          (case build_timelist (increment_input inp) start_time end_time of
             None \<Rightarrow> None
           | Some (timelist, Some e) \<Rightarrow> Some (handler e, w1)
           | Some (timelist, None) \<Rightarrow>
               Some (None,
                 solve_loop sv (output_feature_class inp) timelist
                   (AddMessage (Literal ''Solving Service Area at time...'')
                      (prepare_field w1)))))"

section \<open>Concrete inputs\<close>

text \<open>
  A parser for the zero-padded forms \<^verbatim>\<open>YYYYMMDD\<close> and
  \<^verbatim>\<open>HH:MM\<close> only, with the values the library's parser returns on them (a
  time without a date is on 1900-01-01). The library's parser also accepts some forms
  without the padding, which this one refuses. It instantiates the parameter in the
  examples, all of them zero-padded.
\<close>

definition number_of :: "string \<Rightarrow> int option" where
  "number_of s =
     (if s \<noteq> [] \<and> list_all (\<lambda>c. c \<in> set ''0123456789'') s
      then Some (foldl (\<lambda>n c. 10 * n + (int (of_char c) - 48)) 0 s)
      else None)"

definition parse_date :: "string \<Rightarrow> error + datetime" where
  "parse_date s =
     (if length s \<noteq> 8 then Inl ValueError
      else case (number_of (take 4 s), number_of (take 2 (drop 4 s)), number_of (drop 6 s)) of
             (Some y, Some m, Some d) \<Rightarrow>
               if 1 \<le> y \<and> 1 \<le> m \<and> m \<le> 12 \<and> 1 \<le> d \<and> d \<le> days_in_month y m
               then Inr (datetime_of y m d 0 0) else Inl ValueError
           | _ \<Rightarrow> Inl ValueError)"

definition parse_time :: "string \<Rightarrow> error + datetime" where
  "parse_time s =
     (if length s \<noteq> 5 \<or> s ! 2 \<noteq> CHR '':'' then Inl ValueError
      else case (number_of (take 2 s), number_of (drop 3 s)) of
             (Some h, Some m) \<Rightarrow>
               if h < 24 \<and> m < 60 then Inr (datetime_of 1900 1 1 h m) else Inl ValueError
           | _ \<Rightarrow> Inl ValueError)"

definition strptime_padded :: strptime where
  "strptime_padded s fmt =
     (if fmt = ''%Y%m%d'' then parse_date s
      else if fmt = ''%H:%M'' then parse_time s
      else Inl ValueError)"

text \<open>
  A Service Area layer, a licence, Monday 08:00 to Monday 09:00 every 30 minutes; a
  solver that returns one polygon, labelled by the time it was computed for; a host
  application with no message, no field, no row and no feature class.
\<close>

definition monday_inputs :: inputs where
  "monday_inputs =
     \<lparr>extension_status = ''Available'', dataType = ''NALayer'',
      solverName = ''Service Area Solver'', output_feature_class = ''TimeLapse'',
      start_day_input = ''Monday'', start_time_input = ''08:00'',
      end_day_input = ''Monday'', end_time_input = ''09:00'',
      increment_input = 30\<rparr>"

definition one_polygon :: "datetime option solver" where
  "one_polygon tod = [tod]"

definition fresh_world :: "datetime option world" where
  "fresh_world =
     \<lparr>messages = [], timeOfDay = None, sublayer_fields = [], polygons = [],
      datasets = (\<lambda>_. None), solves = []\<rparr>"

text \<open>The same host application, where the output feature class exists, with one row.\<close>

definition stale_world :: "datetime option world" where
  "stale_world =
     fresh_world\<lparr>datasets := [''TimeLapse'' \<mapsto> [\<lparr>Shape = None, TimeOfDay = None\<rparr>]]\<rparr>"

section \<open>Valid datetimes\<close>

lemma valid_datetime_iff: "valid_datetime t \<longleftrightarrow> 1440 \<le> t \<and> t < 5258966400"
proof -
  have "t = 1440 * (t div 1440) + t mod 1440" "0 \<le> t mod 1440" "t mod 1440 < 1440"
    by simp_all
  then show ?thesis
    unfolding valid_datetime_def toordinal_def MAXORDINAL_def by linarith
qed

lemma clock_bounds: "0 \<le> hour tm * 60 + minute tm \<and> hour tm * 60 + minute tm < 1440"
proof -
  define x where "x = tm mod 1440"
  have x: "0 \<le> x" "x < 1440" by (simp_all add: x_def)
  have m: "minute tm = x mod 60" unfolding minute_def x_def by (simp add: mod_mod_cancel)
  have "x = 60 * (x div 60) + x mod 60" "0 \<le> x mod 60" "x mod 60 < 60" by simp_all
  with x show ?thesis unfolding hour_def m x_def[symmetric] by linarith
qed

lemma datetime_on_valid: "datetime_on d tm = Inr t \<Longrightarrow> valid_datetime t"
proof -
  assume a: "datetime_on d tm = Inr t"
  then have v: "valid_datetime d" and t: "t = toordinal d * 1440 + (hour tm * 60 + minute tm)"
    by (auto simp: datetime_on_def split: if_splits)
  from v have "0 < toordinal d" "toordinal d \<le> 3652059"
    by (simp_all add: valid_datetime_def MAXORDINAL_def)
  with clock_bounds[of tm] t show ?thesis unfolding valid_datetime_iff by linarith
qed

lemma window_ends_Inr:
  "window_ends strp inp w = (Inr (s, e), w') \<Longrightarrow> valid_datetime s \<and> valid_datetime e \<and> w' = w"
  by (auto simp: window_ends_def start_of_window_def end_of_window_def end_day_of_def
      dest: datetime_on_valid split: sum.splits option.splits prod.splits if_splits)

lemma time_window_Inr:
  "time_window strp inp w = (Inr (s, e), w') \<Longrightarrow>
     s < e \<and> valid_datetime s \<and> valid_datetime e \<and> w' = w"
  by (auto simp: time_window_def check_order_def dest: window_ends_Inr
      split: sum.splits prod.splits if_splits)

lemma validate_Inr:
  "validate strp inp w = (Inr (s, e), w') \<Longrightarrow>
     s < e \<and> valid_datetime s \<and> valid_datetime e \<and> w' = w"
  by (auto simp: validate_def check_license_def check_layer_def dest: time_window_Inr
      split: sum.splits prod.splits if_splits)

section \<open>The enumeration loop\<close>

lemma map_steps_Suc:
  "map (\<lambda>k. t + int k * inc) [0..<Suc n] = t # map (\<lambda>k. t + inc + int k * inc) [0..<n]"
  by (induction n) (simp_all add: algebra_simps)

text \<open>
  With a positive increment the loop ends, from any valid \<open>t\<close>, and it has added
  \<open>t\<close>, \<open>t + inc\<close>, \<open>t + 2 * inc\<close>, ... up to the end time to the list. An
  addition that leaves the range of the datetimes can only be the one after the last
  element.
\<close>

lemma timelist_loop_pos:
  "0 < inc \<Longrightarrow> 1440 \<le> t \<Longrightarrow> valid_datetime e \<Longrightarrow>
   \<exists>exc. timelist_loop t e inc acc =
      Some (acc @ map (\<lambda>k. t + int k * inc) [0..<nat ((e - t) div inc + 1)], exc)"
proof (induction "nat (e - t + 1)" arbitrary: t acc rule: less_induct)
  case less
  show ?case
  proof (cases "t \<le> e")
    case False
    then have "(e - t) div inc < 0" using less.prems(1) by (simp add: pos_imp_zdiv_neg_iff)
    then have "nat ((e - t) div inc + 1) = 0" by simp
    with False show ?thesis by (subst timelist_loop.simps) simp
  next
    case True
    have nn: "0 \<le> (e - t) div inc" using True less.prems(1) by (simp add: pos_imp_zdiv_nonneg_iff)
    show ?thesis
    proof (cases "valid_datetime (t + inc)")
      case False
      then have "e < t + inc" using less.prems by (auto simp: valid_datetime_iff)
      then have "(e - t) div inc = 0" using True by (simp add: div_pos_pos_trivial)
      then show ?thesis using True False
        by (subst timelist_loop.simps) (simp add: datetime_add_def)
    next
      case v: True
      have m: "nat (e - (t + inc) + 1) < nat (e - t + 1)" using True less.prems(1) by simp
      have "1440 \<le> t + inc" using less.prems by simp
      from less.hyps[OF m less.prems(1) this less.prems(3), of "acc @ [t]"]
      obtain exc where rec: "timelist_loop (t + inc) e inc (acc @ [t]) =
        Some ((acc @ [t]) @ map (\<lambda>k. t + inc + int k * inc) [0..<nat ((e - (t + inc)) div inc + 1)], exc)"
        by blast
      have "(e - t) div inc = ((e - (t + inc)) + inc) div inc" by simp
      also have "\<dots> = (e - (t + inc)) div inc + 1"
        using less.prems(1) by (subst div_add_self2) simp_all
      finally have d: "(e - (t + inc)) div inc + 1 = (e - t) div inc" by simp
      have n: "nat ((e - t) div inc + 1) = Suc (nat ((e - t) div inc))" using nn by simp
      have "map (\<lambda>k. t + int k * inc) [0..<Suc (nat ((e - t) div inc))]
          = t # map (\<lambda>k. t + inc + int k * inc) [0..<nat ((e - t) div inc)]"
        by (rule map_steps_Suc)
      then have eqn: "acc @ map (\<lambda>k. t + int k * inc) [0..<nat ((e - t) div inc + 1)]
          = (acc @ [t]) @ map (\<lambda>k. t + inc + int k * inc) [0..<nat ((e - (t + inc)) div inc + 1)]"
        unfolding d n by simp
      have step: "timelist_loop t e inc acc = timelist_loop (t + inc) e inc (acc @ [t])"
        using True v by (subst timelist_loop.simps) (simp add: datetime_add_def)
      show ?thesis by (rule exI[of _ exc]) (simp only: step rec eqn)
    qed
  qed
qed

text \<open>With an increment of zero the loop never ends: no run of it returns.\<close>

lemma timelist_loop_zero:
  "valid_datetime s \<Longrightarrow> s \<le> e \<Longrightarrow> timelist_loop s e 0 acc = None"
proof (rule ccontr)
  assume v: "valid_datetime s" and le: "s \<le> e" and "timelist_loop s e 0 acc \<noteq> None"
  then obtain r where r: "timelist_loop s e 0 acc = Some r" by auto
  have "\<not> (valid_datetime s \<and> s \<le> e \<and> (0::int) = 0)"
  proof (rule timelist_loop.raw_induct[where P = "\<lambda>t e inc acc r. \<not> (valid_datetime t \<and> t \<le> e \<and> inc = 0)", OF _ r])
    fix f :: "datetime \<Rightarrow> datetime \<Rightarrow> timedelta \<Rightarrow> datetime list \<Rightarrow> (datetime list \<times> error option) option"
    fix t end_time increment timelist y
    assume IH: "\<And>t e inc acc y. f t e inc acc = Some y \<Longrightarrow> \<not> (valid_datetime t \<and> t \<le> e \<and> inc = 0)"
    assume eq: "(if t \<le> end_time then
        (case datetime_add t increment of
           Inl e \<Rightarrow> Some (timelist @ [t], Some e)
         | Inr t' \<Rightarrow> f t' end_time increment (timelist @ [t]))
      else Some (timelist, None)) = Some y"
    show "\<not> (valid_datetime t \<and> t \<le> end_time \<and> increment = 0)"
    proof
      assume a: "valid_datetime t \<and> t \<le> end_time \<and> increment = 0"
      then have "datetime_add t increment = Inr t" by (simp add: datetime_add_def)
      with a eq have "f t end_time increment (timelist @ [t]) = Some y" by simp
      from IH[OF this] a show False by simp
    qed
  qed
  with v le show False by simp
qed

text \<open>
  With a negative increment \<open>t\<close> goes down, and the loop is left by the addition that
  falls below the first datetime.
\<close>

lemma timelist_loop_neg:
  "inc < 0 \<Longrightarrow> t \<le> e \<Longrightarrow> \<exists>out. timelist_loop t e inc acc = Some (out, Some OverflowError)"
proof (induction "nat t" arbitrary: t acc rule: less_induct)
  case less
  show ?case
  proof (cases "valid_datetime (t + inc)")
    case False
    then show ?thesis using less.prems
      by (subst timelist_loop.simps) (simp add: datetime_add_def)
  next
    case True
    then have "nat (t + inc) < nat t" using less.prems by (auto simp: valid_datetime_iff)
    moreover have "t + inc \<le> e" using less.prems by simp
    ultimately obtain out where "timelist_loop (t + inc) e inc (acc @ [t]) = Some (out, Some OverflowError)"
      using less.hyps[of "t + inc" "acc @ [t]"] less.prems(1) by blast
    then show ?thesis using True less.prems
      by (subst timelist_loop.simps) (simp add: datetime_add_def)
  qed
qed

section \<open>Evaluating the concrete inputs\<close>

lemmas calendar_defs = datetime_of_def ymd2ord_def days_before_year_def days_before_month_def
  DAYS_BEFORE_MONTH_def is_leap_def

lemmas clock_defs = datetime_on_def valid_datetime_def toordinal_def MAXORDINAL_def hour_def minute_def

lemmas parser_defs = strptime_padded_def parse_time_def parse_date_def number_of_def
  days_in_month_def DAYS_IN_MONTH_def

lemmas window_defs = time_window_def window_ends_def start_of_window_def end_of_window_def
  end_day_of_def check_order_def days_def

lemma monday_window:
  "time_window strptime_padded monday_inputs fresh_world =
     (Inr (datetime_of 1900 1 1 8 0, datetime_of 1900 1 1 9 0), fresh_world)"
  by (simp add: window_defs monday_inputs_def parser_defs calendar_defs clock_defs)

section \<open>The time list of a validated window\<close>

text \<open>
  C1. For every window that passed the checks (so the start is strictly before the end)
  and every strictly positive increment, the enumeration loop ends and the time list it
  has built has \<open>floor((end - start) / increment) + 1\<close> elements. This is the list
  as the loop leaves it, also in the one case where it is left by an exception: when the
  addition after the last element passes the year 9999.
\<close>

theorem enumeration_length:
  assumes "time_window strp inp w = (Inr (s, e), w')" and "0 < inc"
  shows "\<exists>out exc. timelist_loop s e inc [] = Some (out, exc) \<and>
           length out = nat ((e - s) div inc) + 1"
proof -
  from time_window_Inr[OF assms(1)] have se: "s < e" and vs: "valid_datetime s" and ve: "valid_datetime e"
    by simp_all
  from vs have "1440 \<le> s" by (simp add: valid_datetime_iff)
  from timelist_loop_pos[OF assms(2) this ve, of "[]"]
  obtain exc where "timelist_loop s e inc [] =
      Some (map (\<lambda>k. s + int k * inc) [0..<nat ((e - s) div inc + 1)], exc)"
    by auto
  moreover have "0 \<le> (e - s) div inc" using se assms(2) by (simp add: pos_imp_zdiv_nonneg_iff)
  then have "nat ((e - s) div inc + 1) = nat ((e - s) div inc) + 1" by simp
  ultimately show ?thesis by simp
qed

theorem enumeration_length_witness:
  "time_window strptime_padded monday_inputs fresh_world =
     (Inr (datetime_of 1900 1 1 8 0, datetime_of 1900 1 1 9 0), fresh_world) \<and> (0::int) < 30 \<and>
   (\<exists>out exc. timelist_loop (datetime_of 1900 1 1 8 0) (datetime_of 1900 1 1 9 0) 30 [] = Some (out, exc) \<and>
      length out = nat ((datetime_of 1900 1 1 9 0 - datetime_of 1900 1 1 8 0) div 30) + 1)"
  using enumeration_length[OF monday_window, of 30] monday_window by simp

text \<open>
  C3, as stated, fails: from Monday 08:00 to Monday 09:00 every 45 minutes the list is
  08:00, 08:45, and its last element is not the end time.
\<close>

theorem last_instant_counterexample:
  "time_window strptime_padded (monday_inputs\<lparr>increment_input := 45\<rparr>) fresh_world =
     (Inr (datetime_of 1900 1 1 8 0, datetime_of 1900 1 1 9 0), fresh_world) \<and>
   build_timelist 45 (datetime_of 1900 1 1 8 0) (datetime_of 1900 1 1 9 0) =
     Some ([datetime_of 1900 1 1 8 0, datetime_of 1900 1 1 8 45], None) \<and>
   last [datetime_of 1900 1 1 8 0, datetime_of 1900 1 1 8 45] \<noteq> datetime_of 1900 1 1 9 0"
  by (simp add: window_defs monday_inputs_def parser_defs calendar_defs clock_defs
      build_timelist_def timedelta_minutes_def timelist_loop.simps datetime_add_def)

text \<open>
  C3, amended. For every validated window and strictly positive increment the list
  starts at the start time and its last element is the start time plus the largest
  multiple of the increment that does not pass the end time: it is at most the end time,
  less than one increment before it, and equal to it exactly when the increment divides
  the length of the window.
\<close>

theorem enumeration_span:
  assumes "time_window strp inp w = (Inr (s, e), w')" and "0 < inc"
  shows "\<exists>out exc. timelist_loop s e inc [] = Some (out, exc) \<and>
           hd out = s \<and> last out = s + (e - s) div inc * inc \<and>
           e - inc < last out \<and> last out \<le> e \<and> (last out = e \<longleftrightarrow> inc dvd e - s)"
proof -
  from time_window_Inr[OF assms(1)] have se: "s < e" and vs: "valid_datetime s" and ve: "valid_datetime e"
    by simp_all
  from vs have "1440 \<le> s" by (simp add: valid_datetime_iff)
  define n where "n = nat ((e - s) div inc)"
  define out where "out = map (\<lambda>k. s + int k * inc) [0..<Suc n]"
  have nn: "0 \<le> (e - s) div inc" using se assms(2) by (simp add: pos_imp_zdiv_nonneg_iff)
  then have "nat ((e - s) div inc + 1) = Suc n" by (simp add: n_def)
  with timelist_loop_pos[OF assms(2) \<open>1440 \<le> s\<close> ve, of "[]"]
  obtain exc where run: "timelist_loop s e inc [] = Some (out, exc)"
    by (auto simp: out_def)
  have h: "hd out = s" unfolding out_def map_steps_Suc by simp
  have l: "last out = s + (e - s) div inc * inc" using nn by (simp add: out_def n_def)
  have dm: "e - s = (e - s) div inc * inc + (e - s) mod inc" by simp
  have m: "0 \<le> (e - s) mod inc" "(e - s) mod inc < inc" using assms(2) by simp_all
  have b1: "e - inc < last out" using dm m unfolding l by linarith
  have b2: "last out \<le> e" using dm m unfolding l by linarith
  have "last out = e \<longleftrightarrow> (e - s) mod inc = 0" using dm unfolding l by linarith
  then have b3: "last out = e \<longleftrightarrow> inc dvd e - s" by (simp add: mod_eq_0_iff_dvd)
  from run h l b1 b2 b3 show ?thesis by blast
qed

theorem enumeration_span_witness:
  "time_window strptime_padded monday_inputs fresh_world =
     (Inr (datetime_of 1900 1 1 8 0, datetime_of 1900 1 1 9 0), fresh_world) \<and> (0::int) < 45 \<and>
   (\<exists>out exc. timelist_loop (datetime_of 1900 1 1 8 0) (datetime_of 1900 1 1 9 0) 45 [] = Some (out, exc) \<and>
      hd out = datetime_of 1900 1 1 8 0 \<and> last out = datetime_of 1900 1 1 8 45 \<and>
      last out \<le> datetime_of 1900 1 1 9 0)"
  using enumeration_span[OF monday_window, of 45] monday_window
  by (auto simp: calendar_defs)

text \<open>
  C7. With a strictly positive increment the time list is strictly increasing, so it is
  ordered and has no duplicates. The loop keeps the invariant: from any of its states
  in which the list is strictly increasing and all of it is before \<open>t\<close>, it ends
  with a strictly increasing list. The first state, the empty list at the start time, is
  such a state, and the two ends of a window that passed the checks are valid datetimes
  (\<open>time_window_Inr\<close>).
\<close>

theorem timelist_strictly_increasing:
  assumes "valid_datetime t" and "valid_datetime e" and "0 < inc"
    and "sorted_wrt (<) acc" and "\<forall>x\<in>set acc. x < t"
  shows "\<exists>out exc. timelist_loop t e inc acc = Some (out, exc) \<and>
           sorted_wrt (<) out \<and> distinct out"
proof -
  from assms(1) have "1440 \<le> t" by (simp add: valid_datetime_iff)
  from timelist_loop_pos[OF assms(3) this assms(2), of acc]
  obtain exc where run: "timelist_loop t e inc acc =
      Some (acc @ map (\<lambda>k. t + int k * inc) [0..<nat ((e - t) div inc + 1)], exc)"
    by blast
  have mono: "\<And>i j::nat. i < j \<Longrightarrow> t + int i * inc < t + int j * inc"
    using assms(3) by simp
  have s1: "sorted_wrt (<) (map (\<lambda>k. t + int k * inc) [0..<nat ((e - t) div inc + 1)])"
    unfolding sorted_wrt_map by (rule sorted_wrt_mono_rel[OF _ sorted_wrt_upt]) (rule mono)
  have s2: "\<forall>x\<in>set acc. \<forall>y\<in>set (map (\<lambda>k. t + int k * inc) [0..<nat ((e - t) div inc + 1)]). x < y"
  proof (intro ballI)
    fix x y assume x: "x \<in> set acc" and "y \<in> set (map (\<lambda>k. t + int k * inc) [0..<nat ((e - t) div inc + 1)])"
    then obtain k :: nat where "y = t + int k * inc" by auto
    moreover have "0 \<le> int k * inc" using assms(3) by simp
    ultimately show "x < y" using assms(5) x by fastforce
  qed
  have srt: "sorted_wrt (<) (acc @ map (\<lambda>k. t + int k * inc) [0..<nat ((e - t) div inc + 1)])"
    using assms(4) s1 s2 by (simp add: sorted_wrt_append)
  then have "distinct (acc @ map (\<lambda>k. t + int k * inc) [0..<nat ((e - t) div inc + 1)])"
    using strict_sorted_iff by blast
  with run srt show ?thesis by blast
qed

theorem timelist_strictly_increasing_witness:
  "valid_datetime (datetime_of 1900 1 1 8 30) \<and> valid_datetime (datetime_of 1900 1 1 9 0) \<and>
   (0::int) < 30 \<and> sorted_wrt (<) [datetime_of 1900 1 1 8 0] \<and>
   datetime_of 1900 1 1 8 0 < datetime_of 1900 1 1 8 30 \<and>
   (\<exists>out exc. timelist_loop (datetime_of 1900 1 1 8 30) (datetime_of 1900 1 1 9 0) 30
        [datetime_of 1900 1 1 8 0] = Some (out, exc) \<and> sorted_wrt (<) out \<and> distinct out)"
proof -
  have v1: "valid_datetime (datetime_of 1900 1 1 8 30)" by (simp add: calendar_defs clock_defs)
  have v2: "valid_datetime (datetime_of 1900 1 1 9 0)" by (simp add: calendar_defs clock_defs)
  have p: "(0::int) < 30" by simp
  have s: "sorted_wrt (<) [datetime_of 1900 1 1 8 0]" by simp
  have b: "\<forall>x\<in>set [datetime_of 1900 1 1 8 0]. x < datetime_of 1900 1 1 8 30" by (simp add: calendar_defs)
  have lt: "datetime_of 1900 1 1 8 0 < datetime_of 1900 1 1 8 30" by (simp add: calendar_defs)
  from timelist_strictly_increasing[OF v1 v2 p s b] v1 v2 p s lt show ?thesis by blast
qed

section \<open>Rejected windows\<close>

lemma days_distinct:
  "map_of days a = Some x \<Longrightarrow> map_of days b = Some y \<Longrightarrow> a \<noteq> b \<Longrightarrow> x \<noteq> y"
  by (simp add: days_def calendar_defs split: if_splits)

lemma start_of_window_generic:
  "start_of_window strp inp = Inr (g, sd, st) \<Longrightarrow>
     (if g then map_of days (start_day_input inp) = Some sd
      else map_of days (start_day_input inp) = None)"
  by (auto simp: start_of_window_def split: sum.splits option.splits)

lemma time_window_start_Inl:
  "start_of_window strp inp = Inl e \<Longrightarrow> time_window strp inp w = (Inl e, w)"
  by (simp add: time_window_def window_ends_def)

lemma time_window_end_day_Inl:
  "start_of_window strp inp = Inr (g, sd, st) \<Longrightarrow> end_day_of strp inp g sd w = (Inl e, w') \<Longrightarrow>
     time_window strp inp w = (Inl e, w')"
  by (simp add: time_window_def window_ends_def end_of_window_def)

text \<open>
  C4. When exactly one of the start day and the end day is one of the seven generic
  weekday names, no window is produced: the check of the end day adds an error message
  and raises \<^verbatim>\<open>CustomError\<close>, unless the start day or the start time, which
  are read before, already failed to parse, and then that exception ends the script.
\<close>

theorem mismatched_kinds_reject:
  assumes "(map_of days (start_day_input inp) = None) \<noteq> (map_of days (end_day_input inp) = None)"
  shows "\<exists>e w'. time_window strp inp w = (Inl e, w') \<and>
           (e = CustomError \<and> (\<exists>msg. w' = AddError msg w) \<or>
            start_of_window strp inp = Inl e \<and> w' = w)"
proof (cases "start_of_window strp inp")
  case (Inl e)
  then show ?thesis using time_window_start_Inl[OF Inl, of w] by simp
next
  case (Inr r)
  obtain g sd st where r: "r = (g, sd, st)" by (cases r) auto
  from start_of_window_generic[OF Inr[unfolded r]] assms
  have "\<exists>msg. end_day_of strp inp g sd w = (Inl CustomError, AddError msg w)"
    by (auto simp: end_day_of_def split: if_splits option.splits)
  then obtain msg where "end_day_of strp inp g sd w = (Inl CustomError, AddError msg w)" by blast
  from time_window_end_day_Inl[OF Inr[unfolded r] this] show ?thesis by blast
qed

theorem mismatched_kinds_reject_witness:
  "(map_of days (start_day_input (monday_inputs\<lparr>end_day_input := ''19000101''\<rparr>)) = None) \<noteq>
   (map_of days (end_day_input (monday_inputs\<lparr>end_day_input := ''19000101''\<rparr>)) = None) \<and>
   (\<exists>e w'. time_window strptime_padded (monday_inputs\<lparr>end_day_input := ''19000101''\<rparr>) fresh_world =
        (Inl e, w') \<and> e = CustomError \<and> (\<exists>msg. w' = AddError msg fresh_world))"
proof -
  have h: "(map_of days (start_day_input (monday_inputs\<lparr>end_day_input := ''19000101''\<rparr>)) = None) \<noteq>
     (map_of days (end_day_input (monday_inputs\<lparr>end_day_input := ''19000101''\<rparr>)) = None)"
    by (simp add: monday_inputs_def days_def)
  have s: "start_of_window strptime_padded (monday_inputs\<lparr>end_day_input := ''19000101''\<rparr>) =
      Inr (True, datetime_of 1900 1 1 0 0, datetime_of 1900 1 1 8 0)"
    by (simp add: start_of_window_def monday_inputs_def days_def parser_defs calendar_defs clock_defs)
  from mismatched_kinds_reject[OF h, of strptime_padded fresh_world] h s show ?thesis by auto
qed

text \<open>
  C5. When the start day and the end day are two different generic weekday names, no
  window is produced: the comparison of the two days adds the error message and raises
  \<^verbatim>\<open>CustomError\<close>, unless the start time, which is read before, already
  failed to parse.
\<close>

theorem mismatched_weekdays_reject:
  assumes "map_of days (start_day_input inp) = Some x" and "map_of days (end_day_input inp) = Some y"
    and "start_day_input inp \<noteq> end_day_input inp"
  shows "\<exists>e w'. time_window strp inp w = (Inl e, w') \<and>
           (e = CustomError \<and>
              w' = AddError ''If using a generic weekday, the Start Day and End Day must be the same.'' w \<or>
            start_of_window strp inp = Inl e \<and> w' = w)"
proof (cases "start_of_window strp inp")
  case (Inl e)
  then show ?thesis using time_window_start_Inl[OF Inl, of w] by simp
next
  case (Inr r)
  obtain g sd st where r: "r = (g, sd, st)" by (cases r) auto
  from start_of_window_generic[OF Inr[unfolded r]] assms(1)
  have g: "g" and sd: "sd = x" by (auto split: if_splits)
  from days_distinct[OF assms] have "x \<noteq> y" .
  with g sd assms(2)
  have "end_day_of strp inp g sd w =
    (Inl CustomError, AddError ''If using a generic weekday, the Start Day and End Day must be the same.'' w)"
    by (simp add: end_day_of_def)
  from time_window_end_day_Inl[OF Inr[unfolded r] this] show ?thesis by blast
qed

theorem mismatched_weekdays_reject_witness:
  "map_of days (start_day_input (monday_inputs\<lparr>end_day_input := ''Tuesday''\<rparr>)) =
     Some (datetime_of 1900 1 1 0 0) \<and>
   map_of days (end_day_input (monday_inputs\<lparr>end_day_input := ''Tuesday''\<rparr>)) =
     Some (datetime_of 1900 1 2 0 0) \<and>
   start_day_input (monday_inputs\<lparr>end_day_input := ''Tuesday''\<rparr>) \<noteq>
     end_day_input (monday_inputs\<lparr>end_day_input := ''Tuesday''\<rparr>) \<and>
   time_window strptime_padded (monday_inputs\<lparr>end_day_input := ''Tuesday''\<rparr>) fresh_world =
     (Inl CustomError,
      AddError ''If using a generic weekday, the Start Day and End Day must be the same.'' fresh_world)"
proof -
  have a: "map_of days (start_day_input (monday_inputs\<lparr>end_day_input := ''Tuesday''\<rparr>)) =
     Some (datetime_of 1900 1 1 0 0)"
    by (simp add: monday_inputs_def days_def)
  have b: "map_of days (end_day_input (monday_inputs\<lparr>end_day_input := ''Tuesday''\<rparr>)) =
     Some (datetime_of 1900 1 2 0 0)"
    by (simp add: monday_inputs_def days_def)
  have c: "start_day_input (monday_inputs\<lparr>end_day_input := ''Tuesday''\<rparr>) \<noteq>
     end_day_input (monday_inputs\<lparr>end_day_input := ''Tuesday''\<rparr>)"
    by (simp add: monday_inputs_def)
  have s: "start_of_window strptime_padded (monday_inputs\<lparr>end_day_input := ''Tuesday''\<rparr>) =
      Inr (True, datetime_of 1900 1 1 0 0, datetime_of 1900 1 1 8 0)"
    by (simp add: start_of_window_def monday_inputs_def days_def parser_defs calendar_defs clock_defs)
  from mismatched_weekdays_reject[OF a b c, of strptime_padded fresh_world] a b c s
  show ?thesis by auto
qed

text \<open>
  C6. When the composed start time equals the composed end time, and when the composed
  end time is strictly before the composed start time, the comparison adds its error
  message and raises \<^verbatim>\<open>CustomError\<close>: no window is produced, so no time
  list is built.
\<close>

theorem empty_or_reversed_window_rejects:
  assumes "window_ends strp inp w = (Inr (s, e), w1)" and "e \<le> s"
  shows "time_window strp inp w =
           (Inl CustomError,
            AddError (if s = e then ''Start and end date and time are the same.''
                      else ''End time is earlier than start time.'') w1)"
  using assms by (simp add: time_window_def check_order_def)

lemma monday_window_ends:
  "window_ends strptime_padded (monday_inputs\<lparr>end_time_input := ''08:00''\<rparr>) fresh_world =
     (Inr (datetime_of 1900 1 1 8 0, datetime_of 1900 1 1 8 0), fresh_world)"
  "window_ends strptime_padded (monday_inputs\<lparr>end_time_input := ''07:00''\<rparr>) fresh_world =
     (Inr (datetime_of 1900 1 1 8 0, datetime_of 1900 1 1 7 0), fresh_world)"
  by (simp_all add: window_defs monday_inputs_def parser_defs calendar_defs clock_defs)

theorem empty_or_reversed_window_rejects_witness:
  "window_ends strptime_padded (monday_inputs\<lparr>end_time_input := ''08:00''\<rparr>) fresh_world =
     (Inr (datetime_of 1900 1 1 8 0, datetime_of 1900 1 1 8 0), fresh_world) \<and>
   datetime_of 1900 1 1 8 0 \<le> datetime_of 1900 1 1 8 0 \<and>
   time_window strptime_padded (monday_inputs\<lparr>end_time_input := ''08:00''\<rparr>) fresh_world =
     (Inl CustomError, AddError ''Start and end date and time are the same.'' fresh_world) \<and>
   window_ends strptime_padded (monday_inputs\<lparr>end_time_input := ''07:00''\<rparr>) fresh_world =
     (Inr (datetime_of 1900 1 1 8 0, datetime_of 1900 1 1 7 0), fresh_world) \<and>
   datetime_of 1900 1 1 7 0 \<le> datetime_of 1900 1 1 8 0 \<and>
   time_window strptime_padded (monday_inputs\<lparr>end_time_input := ''07:00''\<rparr>) fresh_world =
     (Inl CustomError, AddError ''End time is earlier than start time.'' fresh_world)"
proof -
  have l1: "datetime_of 1900 1 1 8 0 \<le> datetime_of 1900 1 1 8 0" by simp
  have l2: "datetime_of 1900 1 1 7 0 \<le> datetime_of 1900 1 1 8 0" by (simp add: calendar_defs)
  have n: "datetime_of 1900 1 1 8 0 \<noteq> datetime_of 1900 1 1 7 0" by (simp add: calendar_defs)
  from empty_or_reversed_window_rejects[OF monday_window_ends(1) l1]
       empty_or_reversed_window_rejects[OF monday_window_ends(2) l2]
       monday_window_ends l1 l2 n
  show ?thesis by simp
qed

section \<open>A failed validation ends the script\<close>

lemma end_day_of_Inl:
  "end_day_of strp inp g sd w = (Inl e, w') \<Longrightarrow>
     e = CustomError \<and> (\<exists>msg. w' = AddError msg w) \<or> w' = w \<and> (\<exists>s fmt. strp s fmt = Inl e)"
  by (auto simp: end_day_of_def split: option.splits if_splits sum.splits)

lemma end_day_of_Inr: "end_day_of strp inp g sd w = (Inr d, w') \<Longrightarrow> w' = w"
  by (auto simp: end_day_of_def split: option.splits if_splits sum.splits)

lemma datetime_on_Inl: "datetime_on d tm = Inl e \<Longrightarrow> e = ValueError"
  by (auto simp: datetime_on_def split: if_splits)

lemma end_of_window_Inl:
  "end_of_window strp inp g sd w = (Inl e, w') \<Longrightarrow>
     e = CustomError \<and> (\<exists>msg. w' = AddError msg w) \<or>
     w' = w \<and> (e = ValueError \<or> (\<exists>s fmt. strp s fmt = Inl e))"
  by (auto simp: end_of_window_def split: prod.splits sum.splits
      dest: end_day_of_Inl end_day_of_Inr datetime_on_Inl)

lemma start_of_window_Inl:
  "start_of_window strp inp = Inl e \<Longrightarrow> e = ValueError \<or> (\<exists>s fmt. strp s fmt = Inl e)"
  by (auto simp: start_of_window_def split: option.splits sum.splits dest: datetime_on_Inl)

lemma window_ends_Inl:
  "window_ends strp inp w = (Inl e, w') \<Longrightarrow>
     e = CustomError \<and> (\<exists>msg. w' = AddError msg w) \<or>
     w' = w \<and> (e = ValueError \<or> (\<exists>s fmt. strp s fmt = Inl e))"
  by (auto simp: window_ends_def split: prod.splits sum.splits
      dest: end_of_window_Inl start_of_window_Inl)

lemma time_window_Inl:
  "time_window strp inp w = (Inl e, w') \<Longrightarrow>
     e = CustomError \<and> (\<exists>msg. w' = AddError msg w) \<or>
     w' = w \<and> (e = ValueError \<or> (\<exists>s fmt. strp s fmt = Inl e))"
  by (auto simp: time_window_def check_order_def split: prod.splits sum.splits if_splits
      dest: window_ends_Inl window_ends_Inr)

lemma validate_Inl:
  "validate strp inp w = (Inl e, w') \<Longrightarrow>
     e = CustomError \<and> (\<exists>msg. w' = AddError msg w) \<or>
     w' = w \<and> (e = ValueError \<or> (\<exists>s fmt. strp s fmt = Inl e))"
  by (auto simp: validate_def check_license_def check_layer_def split: prod.splits sum.splits if_splits
      dest: time_window_Inl)

lemma AddError_keeps:
  "solves (AddError msg w) = solves w" "datasets (AddError msg w) = datasets w"
  "polygons (AddError msg w) = polygons w"
  "messages (AddError msg w) = messages w @ [(ErrorMsg, Literal msg)]"
  by (simp_all add: AddError_def)

text \<open>The parser of the examples raises no \<^verbatim>\<open>CustomError\<close>.\<close>

lemma strptime_padded_raises:
  "strptime_padded s fmt \<noteq> Inl CustomError"
  by (simp add: strptime_padded_def parse_date_def parse_time_def split: option.splits)

text \<open>
  C8. When a check fails the script ends there, no solve was run and no feature class
  or row was created or changed, and the error reaches the caller: either the failed
  check has added its error message to the messages of the tool, and the script ends
  quietly on its \<^verbatim>\<open>CustomError\<close>; or the day or the time did not parse,
  and the exception of the library leaves the script. The library's parser raises no
  \<^verbatim>\<open>CustomError\<close>, which is a class of the script.
\<close>

theorem validation_failure_reported:
  assumes "validate strp inp w = (Inl e, w1)" and "\<And>s fmt. strp s fmt \<noteq> Inl CustomError"
  shows "solves w1 = solves w \<and> datasets w1 = datasets w \<and> polygons w1 = polygons w \<and>
         (e = CustomError \<and> script strp sv inp w = Some (None, w1) \<and>
            (\<exists>msg. messages w1 = messages w @ [(ErrorMsg, Literal msg)]) \<or>
          e \<noteq> CustomError \<and> script strp sv inp w = Some (Some e, w1) \<and>
            messages w1 = messages w \<and> (e = ValueError \<or> (\<exists>s fmt. strp s fmt = Inl e)))"
proof -
  have run: "script strp sv inp w = Some (handler e, w1)"
    using assms(1) by (simp add: script_def)
  from validate_Inl[OF assms(1)] show ?thesis
  proof
    assume "e = CustomError \<and> (\<exists>msg. w1 = AddError msg w)"
    then obtain msg where "e = CustomError" "w1 = AddError msg w" by blast
    with run show ?thesis by (simp add: AddError_keeps handler_def)
  next
    assume a: "w1 = w \<and> (e = ValueError \<or> (\<exists>s fmt. strp s fmt = Inl e))"
    then have "e \<noteq> CustomError" using assms(2) by auto
    with a run show ?thesis by (simp add: handler_def)
  qed
qed

theorem validation_failure_reported_witness:
  "validate strptime_padded (monday_inputs\<lparr>end_day_input := ''Tuesday''\<rparr>) fresh_world =
     (Inl CustomError,
      AddError ''If using a generic weekday, the Start Day and End Day must be the same.'' fresh_world) \<and>
   (\<forall>s fmt. strptime_padded s fmt \<noteq> Inl CustomError) \<and>
   script strptime_padded one_polygon (monday_inputs\<lparr>end_day_input := ''Tuesday''\<rparr>) fresh_world =
     Some (None,
      AddError ''If using a generic weekday, the Start Day and End Day must be the same.'' fresh_world) \<and>
   messages (AddError ''If using a generic weekday, the Start Day and End Day must be the same.'' fresh_world) =
     [(ErrorMsg, Literal ''If using a generic weekday, the Start Day and End Day must be the same.'')] \<and>
   solves (AddError ''If using a generic weekday, the Start Day and End Day must be the same.'' fresh_world) = [] \<and>
   datasets (AddError ''If using a generic weekday, the Start Day and End Day must be the same.'' fresh_world)
     ''TimeLapse'' = None \<and>
   validate strptime_padded (monday_inputs\<lparr>start_time_input := ''8am''\<rparr>) fresh_world =
     (Inl ValueError, fresh_world) \<and>
   script strptime_padded one_polygon (monday_inputs\<lparr>start_time_input := ''8am''\<rparr>) fresh_world =
     Some (Some ValueError, fresh_world)"
proof -
  have v: "validate strptime_padded (monday_inputs\<lparr>end_day_input := ''Tuesday''\<rparr>) fresh_world =
     (Inl CustomError,
      AddError ''If using a generic weekday, the Start Day and End Day must be the same.'' fresh_world)"
    by (simp add: validate_def check_license_def check_layer_def window_defs monday_inputs_def
        parser_defs calendar_defs clock_defs)
  have u: "validate strptime_padded (monday_inputs\<lparr>start_time_input := ''8am''\<rparr>) fresh_world =
     (Inl ValueError, fresh_world)"
    by (simp add: validate_def check_license_def check_layer_def window_defs monday_inputs_def
        parser_defs calendar_defs clock_defs)
  from validation_failure_reported[OF v strptime_padded_raises, of one_polygon]
       validation_failure_reported[OF u strptime_padded_raises, of one_polygon]
       v u strptime_padded_raises
  show ?thesis by (simp add: fresh_world_def AddError_def)
qed

section \<open>Increments that are not positive\<close>

text \<open>No check reads the increment.\<close>

lemma start_of_window_increment:
  "start_of_window strp (inp\<lparr>increment_input := n\<rparr>) = start_of_window strp inp"
  by (simp add: start_of_window_def cong: option.case_cong sum.case_cong prod.case_cong)

lemma end_day_of_increment:
  "end_day_of strp (inp\<lparr>increment_input := n\<rparr>) g sd w = end_day_of strp inp g sd w"
  by (simp add: end_day_of_def cong: option.case_cong sum.case_cong if_cong)

lemma end_of_window_increment:
  "end_of_window strp (inp\<lparr>increment_input := n\<rparr>) g sd w = end_of_window strp inp g sd w"
  by (simp add: end_of_window_def end_day_of_increment cong: sum.case_cong prod.case_cong)

lemma window_ends_increment:
  "window_ends strp (inp\<lparr>increment_input := n\<rparr>) w = window_ends strp inp w"
  by (simp add: window_ends_def start_of_window_increment end_of_window_increment cong: sum.case_cong prod.case_cong)

lemma time_window_increment:
  "time_window strp (inp\<lparr>increment_input := n\<rparr>) w = time_window strp inp w"
  by (simp add: time_window_def window_ends_increment cong: sum.case_cong prod.case_cong)

lemma validate_increment:
  "validate strp (inp\<lparr>increment_input := n\<rparr>) w = validate strp inp w"
  by (simp add: validate_def check_license_def check_layer_def time_window_increment cong: sum.case_cong prod.case_cong)

lemma monday_validate:
  "validate strptime_padded monday_inputs fresh_world =
     (Inr (datetime_of 1900 1 1 8 0, datetime_of 1900 1 1 9 0), fresh_world)"
  using monday_window by (simp add: validate_def check_license_def check_layer_def monday_inputs_def)

text \<open>After the checks, an increment of zero keeps the script in the enumeration loop.\<close>

lemma script_zero_increment:
  assumes "validate strp inp w = (Inr (s, e), w')" and "increment_input inp = 0"
  shows "script strp sv inp w = None"
proof -
  from validate_Inr[OF assms(1)] have "valid_datetime s" "s \<le> e" by simp_all
  then have "timelist_loop s e 0 [] = None" by (rule timelist_loop_zero)
  then show ?thesis using assms
    by (simp add: script_def build_timelist_def timedelta_minutes_def)
qed

text \<open>
  C2. An increment of zero has to be rejected or guarded, so that the script reports an
  error or the construction of the time list ends. The script does neither: from Monday
  08:00 to Monday 09:00 with an increment of 0 every check passes, no error is
  reported, and the run never leaves the enumeration loop.
\<close>

theorem zero_increment_never_ends:
  "script strptime_padded one_polygon (monday_inputs\<lparr>increment_input := 0\<rparr>) fresh_world = None"
proof -
  have "validate strptime_padded (monday_inputs\<lparr>increment_input := 0\<rparr>) fresh_world =
     (Inr (datetime_of 1900 1 1 8 0, datetime_of 1900 1 1 9 0), fresh_world)"
    by (simp only: validate_increment monday_validate)
  then show ?thesis by (rule script_zero_increment) simp
qed

text \<open>
  After the checks, a negative increment takes \<open>t\<close> back in time until the addition
  leaves the range of the datetimes; that exception is not caught.
\<close>

lemma script_negative_increment:
  assumes "validate strp inp w = (Inr (s, e), w')" and "increment_input inp < 0"
  shows "script strp sv inp w = Some (Some OverflowError, w')"
proof (cases "timedelta_minutes (increment_input inp)")
  case (Inl err)
  then have "err = OverflowError" by (auto simp: timedelta_minutes_def split: if_splits)
  with Inl assms(1) show ?thesis
    by (simp add: script_def build_timelist_def handler_def)
next
  case (Inr increment)
  then have i: "increment = increment_input inp" by (auto simp: timedelta_minutes_def split: if_splits)
  from validate_Inr[OF assms(1)] have "s \<le> e" by simp
  from timelist_loop_neg[OF assms(2) this, of "[]"]
  obtain out where "timelist_loop s e (increment_input inp) [] = Some (out, Some OverflowError)"
    by blast
  with Inr i assms(1) show ?thesis
    by (simp add: script_def build_timelist_def handler_def)
qed

text \<open>
  C10, as stated, fails: from Monday 08:00 to Monday 09:00 with an increment of -30
  minutes the loop ends, and the script with it, by \<^verbatim>\<open>OverflowError\<close>.
\<close>

theorem negative_increment_ends_counterexample:
  "script strptime_padded one_polygon (monday_inputs\<lparr>increment_input := - 30\<rparr>) fresh_world =
     Some (Some OverflowError, fresh_world)"
proof -
  have "validate strptime_padded (monday_inputs\<lparr>increment_input := - 30\<rparr>) fresh_world =
     (Inr (datetime_of 1900 1 1 8 0, datetime_of 1900 1 1 9 0), fresh_world)"
    by (simp only: validate_increment monday_validate)
  then show ?thesis by (rule script_negative_increment) simp
qed

text \<open>
  C10, amended. For every window that passes the checks and every strictly negative
  increment, no check rejects the increment, and the enumeration does not run forever:
  the script ends with an uncaught \<^verbatim>\<open>OverflowError\<close> (from the addition
  that falls below the first datetime, or from the increment itself when it is too large
  for a timedelta), without a time list, a message or a solve.
\<close>

theorem negative_increment_overflows:
  assumes "validate strp inp w = (Inr (s, e), w')" and "n < 0"
  shows "validate strp (inp\<lparr>increment_input := n\<rparr>) w = (Inr (s, e), w) \<and>
         script strp sv (inp\<lparr>increment_input := n\<rparr>) w = Some (Some OverflowError, w)"
proof -
  from validate_Inr[OF assms(1)] have "w' = w" by simp
  with assms(1) have v: "validate strp (inp\<lparr>increment_input := n\<rparr>) w = (Inr (s, e), w)"
    by (simp add: validate_increment)
  from script_negative_increment[OF v] assms(2) v show ?thesis by simp
qed

theorem negative_increment_overflows_witness:
  "validate strptime_padded monday_inputs fresh_world =
     (Inr (datetime_of 1900 1 1 8 0, datetime_of 1900 1 1 9 0), fresh_world) \<and> (- 45 :: int) < 0 \<and>
   validate strptime_padded (monday_inputs\<lparr>increment_input := - 45\<rparr>) fresh_world =
     (Inr (datetime_of 1900 1 1 8 0, datetime_of 1900 1 1 9 0), fresh_world) \<and>
   script strptime_padded one_polygon (monday_inputs\<lparr>increment_input := - 45\<rparr>) fresh_world =
     Some (Some OverflowError, fresh_world)"
  using negative_increment_overflows[OF monday_validate, of "- 45" one_polygon] monday_validate
  by simp

section \<open>The solves and the output feature class\<close>

lemma solve_at_solves: "solves (solve_at sv out t w) = solves w @ [Some t]"
  by (simp add: solve_at_def Let_def Solve_def CalculateField_def CopyFeatures_def Append_def
      AddMessage_def Exists_def split: option.splits)

lemma solve_at_polygons: "polygons (solve_at sv out t w) = solved_rows sv t"
  by (simp add: solve_at_def Let_def Solve_def CalculateField_def CopyFeatures_def Append_def
      AddMessage_def Exists_def solved_rows_def comp_def split: option.splits)

lemma solve_at_datasets:
  "datasets (solve_at sv out t w) =
     (datasets w)(out \<mapsto> (case datasets w out of None \<Rightarrow> [] | Some rows \<Rightarrow> rows) @ solved_rows sv t)"
  by (simp add: solve_at_def Let_def Solve_def CalculateField_def CopyFeatures_def Append_def
      AddMessage_def Exists_def solved_rows_def comp_def split: option.splits)

lemma solve_at_creates:
  "datasets w out = None \<Longrightarrow>
     solve_at sv out t w =
       CopyFeatures out (CalculateField t (Solve sv ((AddMessage (StrOf t) w)\<lparr>timeOfDay := Some t\<rparr>)))"
  by (simp add: solve_at_def Let_def Solve_def CalculateField_def AddMessage_def Exists_def)

lemma solve_at_appends:
  "datasets w out = Some rows \<Longrightarrow>
     solve_at sv out t w =
       Append out (CalculateField t (Solve sv ((AddMessage (StrOf t) w)\<lparr>timeOfDay := Some t\<rparr>)))"
  by (simp add: solve_at_def Let_def Solve_def CalculateField_def AddMessage_def Exists_def)

lemma solve_loop_solves: "solves (solve_loop sv out ts w) = solves w @ map Some ts"
  by (induction ts arbitrary: w) (simp_all add: solve_at_solves)

lemma solve_loop_datasets:
  "datasets (solve_loop sv out ts w) =
     (if ts = [] then datasets w
      else (datasets w)(out \<mapsto> (case datasets w out of None \<Rightarrow> [] | Some rows \<Rightarrow> rows) @
                                   concat (map (solved_rows sv) ts)))"
proof (induction ts arbitrary: w)
  case Nil
  show ?case by simp
next
  case (Cons t ts)
  show ?case by (auto simp: Cons.IH solve_at_datasets fun_eq_iff)
qed

lemma clean_fields_keeps:
  "solves (clean_fields fs w) = solves w \<and> datasets (clean_fields fs w) = datasets w \<and>
   polygons (clean_fields fs w) = polygons w"
  by (induction fs arbitrary: w) (simp_all add: DeleteField_def AddWarning_def)

lemma prepare_field_keeps:
  "solves (prepare_field w) = solves w" "datasets (prepare_field w) = datasets w"
  "polygons (prepare_field w) = polygons w"
  by (simp_all add: prepare_field_def AddFieldToAnalysisLayer_def clean_fields_keeps)

text \<open>
  When the checks pass and the enumeration ends normally, the script solves once at each
  instant of the time list, in the order of the list, and the output feature class ends
  with the rows it had before the run followed by the rows of each solve, each with the
  time of day of its solve.
\<close>

lemma script_solves_each_instant:
  assumes "validate strp inp w = (Inr (s, e), w1)"
    and "build_timelist (increment_input inp) s e = Some (timelist, None)"
  shows "\<exists>w'. script strp sv inp w = Some (None, w') \<and>
           solves w' = solves w @ map Some timelist \<and>
           (timelist \<noteq> [] \<longrightarrow>
            datasets w' (output_feature_class inp) =
              Some ((case datasets w (output_feature_class inp) of None \<Rightarrow> [] | Some rows \<Rightarrow> rows) @
                    concat (map (solved_rows sv) timelist)))"
proof -
  from validate_Inr[OF assms(1)] have "w1 = w" by simp
  with assms show ?thesis
    by (simp add: script_def solve_loop_solves solve_loop_datasets prepare_field_keeps AddMessage_def)
qed

lemma monday_timelist:
  "build_timelist 30 (datetime_of 1900 1 1 8 0) (datetime_of 1900 1 1 9 0) =
     Some ([datetime_of 1900 1 1 8 0, datetime_of 1900 1 1 8 30, datetime_of 1900 1 1 9 0], None)"
  by (simp add: build_timelist_def timedelta_minutes_def timelist_loop.simps datetime_add_def
      calendar_defs clock_defs)

lemma monday_validate_stale:
  "validate strptime_padded monday_inputs stale_world =
     (Inr (datetime_of 1900 1 1 8 0, datetime_of 1900 1 1 9 0), stale_world)"
  by (simp add: validate_def check_license_def check_layer_def window_defs monday_inputs_def
      parser_defs calendar_defs clock_defs)

text \<open>
  C9. The loop solves once at each instant of the time list, in ascending order, gives
  the rows of each solve the time of day of that solve and collects them in the output
  feature class, as \<open>script_solves_each_instant\<close> shows. But the feature class is
  created by the first solve only when none of that name exists: on a run whose output
  exists already, the first solve appends to the rows that are there, and they stay in
  the output.
\<close>

theorem first_solve_appends_to_existing_output:
  "(case script strptime_padded one_polygon monday_inputs stale_world of
      None \<Rightarrow> None
    | Some (exc, w') \<Rightarrow> datasets w' ''TimeLapse'') =
   Some [\<lparr>Shape = None, TimeOfDay = None\<rparr>,
         \<lparr>Shape = Some (datetime_of 1900 1 1 8 0), TimeOfDay = Some (datetime_of 1900 1 1 8 0)\<rparr>,
         \<lparr>Shape = Some (datetime_of 1900 1 1 8 30), TimeOfDay = Some (datetime_of 1900 1 1 8 30)\<rparr>,
         \<lparr>Shape = Some (datetime_of 1900 1 1 9 0), TimeOfDay = Some (datetime_of 1900 1 1 9 0)\<rparr>]"
proof -
  have t: "build_timelist (increment_input monday_inputs) (datetime_of 1900 1 1 8 0) (datetime_of 1900 1 1 9 0) =
     Some ([datetime_of 1900 1 1 8 0, datetime_of 1900 1 1 8 30, datetime_of 1900 1 1 9 0], None)"
    using monday_timelist by (simp add: monday_inputs_def)
  from script_solves_each_instant[OF monday_validate_stale t, of one_polygon]
  show ?thesis
    by (auto simp: monday_inputs_def stale_world_def fresh_world_def solved_rows_def one_polygon_def)
qed

end
